theory Spec2Isabelle
  imports Main "HOL-Library.Word"
begin

section \<open>The BlockBook backend coordinator (src/js/backend/BlockBook.js)\<close>

text \<open>
  The class \<open>BlockBook\<close> owns a \<open>BitcoreBlockchain\<close> (the backend connection) and a
  \<open>WorkerDiscovery\<close> (the discovery engine), both of the library hd-wallet. The embedding
  keeps one record for the object and what it owns, returns every thrown value and every
  rejected promise as \<open>Inl\<close>, and records each call made on the two collaborators in the
  field \<open>calls\<close>, in the order the code makes them.
\<close>

subsection \<open>Values\<close>

text \<open>
  JavaScript errors: the constant \<open>ERROR.BACKEND_NO_URL\<close> of \<open>../constants/errors\<close> and
  the objects \<open>new Error(message)\<close>.
\<close>

datatype js_error = BACKEND_NO_URL | Error string

text \<open>Payloads the coordinator only passes through.\<close>

type_synonym AccountInfo = string
type_synonym AccountLoadStatus = string
type_synonym NetworkInfo = string
type_synonym Transaction = string

text \<open>The fields of the flow type \<open>CoinInfo\<close> that this file reads.\<close>

record CoinInfo =
  network :: string
  segwit :: bool
  cashAddrPrefix :: "string option"
  zcash :: bool

record Options =
  urls :: "string list"
  coinInfo :: CoinInfo

text \<open>The answer of \<open>blockchain.lookupTransaction\<close>: the fields \<open>hex\<close> and \<open>zcash\<close>.\<close>

record RawTx =
  hex :: string
  tx_zcash :: bool

text \<open>The answer of \<open>blockchain.lookupSyncStatus\<close>: the field \<open>height\<close>.\<close>

record SyncStatus =
  height :: int

datatype segwit_mode = p2sh | off

text \<open>
  What the collaborators answer. The backend settles each request with a value or an
  error; \<open>getCoinInfoByHash\<close> (of \<open>../data/CoinInfo\<close>) and \<open>fromHex\<close> (of
  bitcoinjs-lib-zcash) are library functions whose code is outside this file, so they are
  parameters too. \<open>wasm_available\<close> is the test \<open>typeof WebAssembly !== 'undefined'\<close>.
  One environment describes the answers during one operation: the same request gets the
  same answer there.
\<close>

record environment =
  wasm_available :: bool
  socket_promise :: "js_error + unit"
  getInfo :: "js_error + NetworkInfo"
  lookupBlockHash :: "nat \<Rightarrow> js_error + string"
  lookupTransaction :: "string \<Rightarrow> js_error + RawTx"
  lookupSyncStatus :: "js_error + SyncStatus"
  sendTransaction_reply :: "string \<Rightarrow> js_error + string"
  getCoinInfoByHash :: "string \<Rightarrow> NetworkInfo \<Rightarrow> CoinInfo option"
  fromHex :: "string \<Rightarrow> bool \<Rightarrow> js_error + Transaction"

text \<open>Objects and requests the constructor creates, in order.\<close>

datatype creation =
    New_FastXpubWorker
  | New_BitcoreBlockchain "string list"
  | HttpRequest_FastXpubWasm
  | Promise_reject
  | New_WorkerDiscovery

text \<open>
  Calls made on the backend connection, on the discovery engine and on the caller's
  callbacks after construction. \<open>SetDisposer n\<close> hands the caller the disposer of
  discovery session \<open>n\<close>; \<open>Progress n st\<close> is the call \<open>progress(st)\<close> for session \<open>n\<close>.
\<close>

datatype call =
    Socket_promise
  | Socket_send string
  | LookupBlockHash nat
  | DiscoverAccount "AccountInfo option" string string segwit_mode bool
  | SetDisposer nat
  | Progress nat AccountLoadStatus
  | Stream_dispose nat
  | MonitorAccountActivity AccountInfo string string segwit_mode bool
  | LookupTransaction string
  | LookupSyncStatus
  | SendTransaction string

text \<open>
  The three closures the code attaches to \<open>blockchain.errors.values\<close>: \<open>_setError\<close> bound
  to the object (constructor), \<open>(e) => discovery.dispose(e)\<close> for the session created in the
  same call (\<open>loadAccountInfo\<close>), and \<open>() => res.dispose()\<close> for the stream created in the
  same call (\<open>monitorAccountActivity\<close>).
\<close>

datatype handler = SetError | DisposeDiscovery nat | DisposeMonitor nat

datatype 'a promise = Pending | Resolved 'a | Rejected js_error

text \<open>
  A discovery session, the object \<open>discoverAccount\<close> returns: the promise \<open>ending\<close> and
  the progress stream, which is disposed or not.
\<close>

record session =
  ending :: "AccountInfo promise"
  stream_disposed :: bool

text \<open>
  The coordinator. \<open>handlers\<close> are the observers of \<open>blockchain.errors.values\<close> in attach
  order, \<open>blockchain_zcash\<close> is the field \<open>blockchain.zcash\<close> (unset until assigned),
  \<open>sessions\<close> and \<open>monitors\<close> are the objects the discovery engine has returned so far
  (a monitor is its disposed flag).
\<close>

record BlockBook =
  options :: Options
  error :: "js_error option"
  handlers :: "handler list"
  blockchain_zcash :: "bool option"
  calls :: "call list"
  sessions :: "session list"
  monitors :: "bool list"

subsection \<open>Constructor and \<open>_setError\<close>\<close>

definition constructor ::
  "environment \<Rightarrow> Options \<Rightarrow> creation list \<Rightarrow> (js_error + BlockBook) \<times> creation list" where
  "constructor env opts world =
     (if length (urls opts) < 1 then (Inl BACKEND_NO_URL, world)
      else
        (Inr \<lparr>options = opts, error = None, handlers = [SetError], blockchain_zcash = None,
              calls = [], sessions = [], monitors = []\<rparr>,
         world @ [New_FastXpubWorker, New_BitcoreBlockchain (urls opts),
                  (if wasm_available env then HttpRequest_FastXpubWasm else Promise_reject),
                  New_WorkerDiscovery]))"

definition setError :: "js_error \<Rightarrow> BlockBook \<Rightarrow> BlockBook" where
  "setError e s = s\<lparr>error := Some e\<rparr>"

subsection \<open>The discovery engine's sessions and streams\<close>

text \<open>
  The sources do not contain hd-wallet, so what its sessions and streams do when they are
  disposed or completed is taken from sections 3, 4.3, 4.4 and 5 of the specification.
\<close>

text \<open>
  Modelled from the spec: \<open>discovery.dispose(e)\<close> of a session, whose code is missing.
  Cancelling a session that is still open makes its result fail with the reason given;
  cancelling a session that has ended changes nothing (cancellation is idempotent and only
  affects sessions not yet complete).
\<close>

definition dispose_session :: "nat \<Rightarrow> js_error \<Rightarrow> BlockBook \<Rightarrow> BlockBook" where
  "dispose_session n e s =
     (if n < length (sessions s) \<and> ending (sessions s ! n) = Pending
      then s\<lparr>sessions := (sessions s)[n := (sessions s ! n)\<lparr>ending := Rejected e\<rparr>]\<rparr>
      else s)"

text \<open>
  Modelled from the spec: the engine settling the promise \<open>ending\<close> of a session, whose code
  is missing. An open session ends with the engine's result or failure; a session that has
  ended keeps its outcome.
\<close>

definition settle_session :: "nat \<Rightarrow> AccountInfo promise \<Rightarrow> BlockBook \<Rightarrow> BlockBook" where
  "settle_session n p s =
     (if n < length (sessions s) \<and> ending (sessions s ! n) = Pending
      then s\<lparr>sessions := (sessions s)[n := (sessions s ! n)\<lparr>ending := p\<rparr>]\<rparr>
      else s)"

text \<open>
  Modelled from the spec: the effect of \<open>discovery.stream.dispose()\<close>, whose code is
  missing. The call itself is the coordinator's and is recorded in \<open>calls\<close>; the progress
  stream is disposed from then on.
\<close>

definition dispose_stream :: "nat \<Rightarrow> BlockBook \<Rightarrow> BlockBook" where
  "dispose_stream n s =
     (if n < length (sessions s)
      then s\<lparr>sessions := (sessions s)[n := (sessions s ! n)\<lparr>stream_disposed := True\<rparr>],
              calls := calls s @ [Stream_dispose n]\<rparr>
      else s)"

text \<open>
  Modelled from the spec: \<open>res.dispose()\<close> of an activity stream, whose code is missing.
  Disposing may be repeated.
\<close>

definition dispose_monitor :: "nat \<Rightarrow> BlockBook \<Rightarrow> BlockBook" where
  "dispose_monitor n s =
     (if n < length (monitors s) then s\<lparr>monitors := (monitors s)[n := True]\<rparr> else s)"

text \<open>
  The handler \<open>status => progress(status)\<close> attached to \<open>discovery.stream.values\<close>: a status
  the engine emits is passed to the caller's callback while the stream is not disposed.
\<close>

definition relay_progress :: "nat \<Rightarrow> AccountLoadStatus \<Rightarrow> BlockBook \<Rightarrow> BlockBook" where
  "relay_progress n st s =
     (if n < length (sessions s) \<and> \<not> stream_disposed (sessions s ! n)
      then s\<lparr>calls := calls s @ [Progress n st]\<rparr>
      else s)"

subsection \<open>Events between the steps of the code\<close>

text \<open>
  What can happen while an operation is suspended at an \<open>await\<close>: the backend's error
  channel delivers an error, the engine completes or fails a session or emits a progress
  status, or the caller invokes the disposer it was given.
\<close>

datatype event =
    BackendError js_error
  | DiscoveryEnds nat AccountInfo
  | DiscoveryFails nat js_error
  | DiscoveryProgress nat AccountLoadStatus
  | DisposerCalled nat

fun run_handler :: "js_error \<Rightarrow> handler \<Rightarrow> BlockBook \<Rightarrow> BlockBook" where
  "run_handler e SetError s = setError e s"
| "run_handler e (DisposeDiscovery n) s = dispose_session n e s"
| "run_handler e (DisposeMonitor n) s = dispose_monitor n s"

fun run_handlers :: "js_error \<Rightarrow> handler list \<Rightarrow> BlockBook \<Rightarrow> BlockBook" where
  "run_handlers e [] s = s"
| "run_handlers e (h # hs) s = run_handlers e hs (run_handler e h s)"

fun step :: "event \<Rightarrow> BlockBook \<Rightarrow> BlockBook" where
  "step (BackendError e) s = run_handlers e (handlers s) s"
| "step (DiscoveryEnds n info) s = settle_session n (Resolved info) s"
| "step (DiscoveryFails n e) s = settle_session n (Rejected e) s"
| "step (DiscoveryProgress n st) s = relay_progress n st s"
| "step (DisposerCalled n) s = dispose_session n (Error ''Interrupted by user'') s"

fun run_events :: "event list \<Rightarrow> BlockBook \<Rightarrow> BlockBook" where
  "run_events [] s = s"
| "run_events (ev # evs) s = run_events evs (step ev s)"

subsection \<open>\<open>loadCoinInfo\<close>\<close>

definition UnknownNetwork :: "string \<Rightarrow> js_error" where
  "UnknownNetwork hash = Error (''Failed to load coinInfo '' @ hash)"

definition log :: "call \<Rightarrow> BlockBook \<Rightarrow> BlockBook" where
  "log c s = s\<lparr>calls := calls s @ [c]\<rparr>"

definition loadCoinInfo ::
  "environment \<Rightarrow> CoinInfo option \<Rightarrow> BlockBook \<Rightarrow> (js_error + unit) \<times> BlockBook" where
  "loadCoinInfo env coinInfo0 s =
     (let s1 = log Socket_promise s in
      case socket_promise env of
        Inl e \<Rightarrow> (Inl e, s1)
      | Inr _ \<Rightarrow>
         (let s2 = log (Socket_send ''getInfo'') s1 in
          case getInfo env of
            Inl e \<Rightarrow> (Inl e, s2)
          | Inr networkInfo \<Rightarrow>
             (case coinInfo0 of
                Some c \<Rightarrow> (Inr (), s2\<lparr>blockchain_zcash := Some (zcash c)\<rparr>)
              | None \<Rightarrow>
                 (let s3 = log (LookupBlockHash 0) s2 in
                  case lookupBlockHash env 0 of
                    Inl e \<Rightarrow> (Inl e, s3)
                  | Inr hash \<Rightarrow>
                     (case getCoinInfoByHash env hash networkInfo of
                        None \<Rightarrow> (Inl (UnknownNetwork hash), s3)
                      | Some c \<Rightarrow> (Inr (), s3\<lparr>blockchain_zcash := Some (zcash c)\<rparr>))))))"

subsection \<open>\<open>loadAccountInfo\<close>\<close>

definition segwit_s :: "CoinInfo \<Rightarrow> segwit_mode" where
  "segwit_s c = (if segwit c then p2sh else off)"

text \<open>\<open>!!(coinInfo.cashAddrPrefix)\<close>: a string is truthy when it is not empty.\<close>

definition truthy :: "string option \<Rightarrow> bool" where
  "truthy v = (case v of None \<Rightarrow> False | Some str \<Rightarrow> str \<noteq> [])"

text \<open>
  The synchronous part, up to \<open>await discovery.ending\<close>: the guard, the engine call, the
  disposer handed to the caller, and the subscription to the error channel. The new session
  is the next one of the engine; the subscription to its progress stream is modelled by
  \<open>relay_progress\<close>.
\<close>

definition loadAccountInfo_start ::
  "string \<Rightarrow> AccountInfo option \<Rightarrow> CoinInfo \<Rightarrow> BlockBook \<Rightarrow> (js_error + nat) \<times> BlockBook" where
  "loadAccountInfo_start xpub data c s =
     (case error s of
        Some e \<Rightarrow> (Inl e, s)
      | None \<Rightarrow>
         (let n = length (sessions s) in
          (Inr n,
           s\<lparr>calls := calls s @
                [DiscoverAccount data xpub (network c) (segwit_s c) (truthy (cashAddrPrefix c)),
                 SetDisposer n],
             sessions := sessions s @ [\<lparr>ending = Pending, stream_disposed = False\<rparr>],
             handlers := handlers s @ [DisposeDiscovery n]\<rparr>)))"

text \<open>
  \<open>await discovery.ending\<close>: events are taken one at a time while the promise is pending.
  \<open>None\<close> means that the promise is still pending when the events are exhausted.
\<close>

fun await_ending ::
  "nat \<Rightarrow> event list \<Rightarrow> BlockBook \<Rightarrow> (js_error + AccountInfo) option \<times> BlockBook" where
  "await_ending n [] s =
     (case ending (sessions s ! n) of
        Pending \<Rightarrow> (None, s)
      | Resolved info \<Rightarrow> (Some (Inr info), s)
      | Rejected e \<Rightarrow> (Some (Inl e), s))"
| "await_ending n (ev # evs) s =
     (case ending (sessions s ! n) of
        Pending \<Rightarrow> await_ending n evs (step ev s)
      | Resolved info \<Rightarrow> (Some (Inr info), s)
      | Rejected e \<Rightarrow> (Some (Inl e), s))"

definition loadAccountInfo ::
  "string \<Rightarrow> AccountInfo option \<Rightarrow> CoinInfo \<Rightarrow> event list \<Rightarrow> BlockBook \<Rightarrow>
     (js_error + AccountInfo) option \<times> BlockBook" where
  "loadAccountInfo xpub data c evs s =
     (case loadAccountInfo_start xpub data c s of
        (Inl e, s1) \<Rightarrow> (Some (Inl e), s1)
      | (Inr n, s1) \<Rightarrow>
         (case await_ending n evs s1 of
            (Some (Inr info), s2) \<Rightarrow> (Some (Inr info), dispose_stream n s2)
          | (r, s2) \<Rightarrow> (r, s2)))"

subsection \<open>\<open>monitorAccountActivity\<close>\<close>

definition monitorAccountActivity ::
  "string \<Rightarrow> AccountInfo \<Rightarrow> CoinInfo \<Rightarrow> BlockBook \<Rightarrow> (js_error + nat) \<times> BlockBook" where
  "monitorAccountActivity xpub data c s =
     (case error s of
        Some e \<Rightarrow> (Inl e, s)
      | None \<Rightarrow>
         (let n = length (monitors s) in
          (Inr n,
           s\<lparr>calls := calls s @
                [MonitorAccountActivity data xpub (network c) (segwit_s c)
                   (truthy (cashAddrPrefix c))],
             monitors := monitors s @ [False],
             handlers := handlers s @ [DisposeMonitor n]\<rparr>)))"

subsection \<open>Chain data access\<close>

definition loadTransaction ::
  "environment \<Rightarrow> string \<Rightarrow> BlockBook \<Rightarrow> (js_error + Transaction) \<times> BlockBook" where
  "loadTransaction env ident s =
     (case error s of
        Some e \<Rightarrow> (Inl e, s)
      | None \<Rightarrow>
         (let s1 = log (LookupTransaction ident) s in
          case lookupTransaction env ident of
            Inl e \<Rightarrow> (Inl e, s1)
          | Inr tx \<Rightarrow> (fromHex env (hex tx) (tx_zcash tx), s1)))"

text \<open>\<open>txs.map(id => this.loadTransaction(id))\<close>: the calls are made in list order.\<close>

fun map_loadTransaction ::
  "environment \<Rightarrow> string list \<Rightarrow> BlockBook \<Rightarrow> (js_error + Transaction) list \<times> BlockBook" where
  "map_loadTransaction env [] s = ([], s)"
| "map_loadTransaction env (ident # idents) s =
     (case loadTransaction env ident s of
        (r, s1) \<Rightarrow> (case map_loadTransaction env idents s1 of (rs, s2) \<Rightarrow> (r # rs, s2)))"

text \<open>
  \<open>Promise.all\<close> rejects with the reason of the promise that rejects first, and otherwise
  fulfils with all values in input order. \<open>order\<close> lists the indices of the promises in the
  order in which they settle; promises it does not list settle after those, in index order.
\<close>

fun first_rejection :: "nat list \<Rightarrow> (js_error + 'a) list \<Rightarrow> js_error option" where
  "first_rejection [] rs = None"
| "first_rejection (i # is) rs =
     (if i < length rs
      then (case rs ! i of Inl e \<Rightarrow> Some e | Inr _ \<Rightarrow> first_rejection is rs)
      else first_rejection is rs)"

fun fulfilled :: "(js_error + 'a) list \<Rightarrow> 'a list" where
  "fulfilled [] = []"
| "fulfilled (Inr v # rs) = v # fulfilled rs"
| "fulfilled (Inl e # rs) = []"

definition Promise_all :: "nat list \<Rightarrow> (js_error + 'a) list \<Rightarrow> js_error + 'a list" where
  "Promise_all order rs =
     (case first_rejection (order @ [0..<length rs]) rs of
        Some e \<Rightarrow> Inl e
      | None \<Rightarrow> Inr (fulfilled rs))"

definition loadTransactions ::
  "environment \<Rightarrow> nat list \<Rightarrow> string list \<Rightarrow> BlockBook \<Rightarrow>
     (js_error + Transaction list) \<times> BlockBook" where
  "loadTransactions env order txs s =
     (case error s of
        Some e \<Rightarrow> (Inl e, s)
      | None \<Rightarrow>
         (case map_loadTransaction env txs s of (rs, s1) \<Rightarrow> (Promise_all order rs, s1)))"

definition loadCurrentHeight ::
  "environment \<Rightarrow> BlockBook \<Rightarrow> (js_error + int) \<times> BlockBook" where
  "loadCurrentHeight env s =
     (case error s of
        Some e \<Rightarrow> (Inl e, s)
      | None \<Rightarrow>
         (let s1 = log LookupSyncStatus s in
          case lookupSyncStatus env of
            Inl e \<Rightarrow> (Inl e, s1)
          | Inr st \<Rightarrow> (Inr (height st), s1)))"

text \<open>\<open>Buffer.toString('hex')\<close>: two lower-case hexadecimal digits for each byte.\<close>

definition hex_digit :: "nat \<Rightarrow> char" where
  "hex_digit d = ''0123456789abcdef'' ! d"

definition toString_hex :: "8 word list \<Rightarrow> string" where
  "toString_hex bytes =
     concat (map (\<lambda>b. [hex_digit (unat b div 16), hex_digit (unat b mod 16)]) bytes)"

definition sendTransactionHex ::
  "environment \<Rightarrow> string \<Rightarrow> BlockBook \<Rightarrow> (js_error + string) \<times> BlockBook" where
  "sendTransactionHex env txHex s =
     (case error s of
        Some e \<Rightarrow> (Inl e, s)
      | None \<Rightarrow> (sendTransaction_reply env txHex, log (SendTransaction txHex) s))"

definition sendTransaction ::
  "environment \<Rightarrow> 8 word list \<Rightarrow> BlockBook \<Rightarrow> (js_error + string) \<times> BlockBook" where
  "sendTransaction env txBytes s =
     (case error s of
        Some e \<Rightarrow> (Inl e, s)
      | None \<Rightarrow>
         (sendTransaction_reply env (toString_hex txBytes),
          log (SendTransaction (toString_hex txBytes)) s))"

definition dispose :: "BlockBook \<Rightarrow> BlockBook" where
  "dispose s = s"

subsection \<open>Engine starts in the call log\<close>

text \<open>The calls that start work on the discovery engine.\<close>

fun engine_start :: "call \<Rightarrow> bool" where
  "engine_start (DiscoverAccount data xpub net sw pre) = True"
| "engine_start (MonitorAccountActivity data xpub net sw pre) = True"
| "engine_start other = False"

subsection \<open>Concrete values for the examples\<close>

definition bitcoin :: CoinInfo where
  "bitcoin = \<lparr>network = ''bitcoin'', segwit = True, cashAddrPrefix = None, zcash = False\<rparr>"

definition zcash_coin :: CoinInfo where
  "zcash_coin = \<lparr>network = ''zcash'', segwit = False, cashAddrPrefix = None, zcash = True\<rparr>"

definition bcash :: CoinInfo where
  "bcash = \<lparr>network = ''bcash'', segwit = False, cashAddrPrefix = Some ''bitcoincash'',
             zcash = False\<rparr>"

definition env0 :: environment where
  "env0 = \<lparr>wasm_available = True,
           socket_promise = Inr (),
           getInfo = Inr ''info'',
           lookupBlockHash = (\<lambda>h. Inr ''00aa''),
           lookupTransaction =
             (\<lambda>i. if i = ''bad'' then Inl (Error ''not found'')
                  else Inr \<lparr>hex = i, tx_zcash = False\<rparr>),
           lookupSyncStatus = Inr \<lparr>height = 500000\<rparr>,
           sendTransaction_reply = (\<lambda>h. Inr ''txid''),
           getCoinInfoByHash = (\<lambda>h ni. if h = ''000019d6'' then Some bitcoin else None),
           fromHex = (\<lambda>h z. Inr h)\<rparr>"

definition ready :: BlockBook where
  "ready = \<lparr>options = \<lparr>urls = [''https://backend''], coinInfo = bitcoin\<rparr>, error = None,
            handlers = [SetError], blockchain_zcash = None, calls = [], sessions = [],
            monitors = []\<rparr>"

definition failed :: BlockBook where
  "failed = ready\<lparr>error := Some (Error ''socket closed'')\<rparr>"

definition env1 :: environment where
  "env1 = env0\<lparr>lookupBlockHash := (\<lambda>h. Inr ''000019d6'')\<rparr>"


section \<open>Properties\<close>

subsection \<open>Construction\<close>

lemma constructor_ready:
  "constructor env0 \<lparr>urls = [''https://backend''], coinInfo = bitcoin\<rparr> [] =
     (Inr ready, [New_FastXpubWorker, New_BitcoreBlockchain [''https://backend''],
                  HttpRequest_FastXpubWasm, New_WorkerDiscovery])"
  by (simp add: constructor_def ready_def env0_def)

text \<open>
  Claim C3. A constructor called with an empty list of urls fails with
  \<open>BACKEND_NO_URL\<close>, and nothing has been created at that point: neither the worker, nor
  the backend connection, nor the request for the wasm file, nor the discovery engine.
\<close>

theorem constructor_empty_urls:
  "urls opts = [] \<Longrightarrow> constructor env opts world = (Inl BACKEND_NO_URL, world)"
  by (simp add: constructor_def)

theorem constructor_empty_urls_witness:
  "urls \<lparr>urls = [], coinInfo = bitcoin\<rparr> = [] \<and>
   constructor env0 \<lparr>urls = [], coinInfo = bitcoin\<rparr> [] = (Inl BACKEND_NO_URL, [])"
  using constructor_empty_urls [of "\<lparr>urls = [], coinInfo = bitcoin\<rparr>" env0 "[]"] by simp

subsection \<open>What events leave unchanged\<close>

lemma run_handler_handlers: "handlers (run_handler e h s) = handlers s"
  by (cases h) (simp_all add: setError_def dispose_session_def dispose_monitor_def)

lemma run_handlers_handlers: "handlers (run_handlers e hs s) = handlers s"
  by (induction hs arbitrary: s) (simp_all add: run_handler_handlers)

lemma step_handlers: "handlers (step ev s) = handlers s"
  by (cases ev)
     (simp_all add: run_handlers_handlers settle_session_def relay_progress_def
        dispose_session_def)

lemma run_events_handlers: "handlers (run_events evs s) = handlers s"
  by (induction evs arbitrary: s) (simp_all add: step_handlers)

lemma run_handler_length: "length (sessions (run_handler e h s)) = length (sessions s)"
  by (cases h) (simp_all add: setError_def dispose_session_def dispose_monitor_def)

lemma run_handlers_length: "length (sessions (run_handlers e hs s)) = length (sessions s)"
  by (induction hs arbitrary: s) (simp_all add: run_handler_length)

lemma step_length: "length (sessions (step ev s)) = length (sessions s)"
  by (cases ev)
     (simp_all add: run_handlers_length settle_session_def relay_progress_def
        dispose_session_def)

lemma run_events_length: "length (sessions (run_events evs s)) = length (sessions s)"
  by (induction evs arbitrary: s) (simp_all add: step_length)

lemma run_events_append: "run_events (evs @ evs') s = run_events evs' (run_events evs s)"
  by (induction evs arbitrary: s) simp_all

subsection \<open>The field \<open>error\<close>\<close>

lemma run_handler_error:
  "error (run_handler e h s) = (if h = SetError then Some e else error s)"
  by (cases h) (simp_all add: setError_def dispose_session_def dispose_monitor_def)

lemma run_handlers_error:
  "error (run_handlers e hs s) = (if SetError \<in> set hs then Some e else error s)"
proof (induction hs arbitrary: s)
  case Nil
  then show ?case by simp
next
  case (Cons h hs)
  show ?case
    using Cons.IH [of "run_handler e h s"] by (simp add: run_handler_error setError_def)
qed

lemma step_error_kept: "error s \<noteq> None \<Longrightarrow> error (step ev s) \<noteq> None"
  by (cases ev)
     (auto simp add: run_handlers_error settle_session_def relay_progress_def
        dispose_session_def)

lemma run_events_error_kept: "error s \<noteq> None \<Longrightarrow> error (run_events evs s) \<noteq> None"
proof (induction evs arbitrary: s)
  case Nil
  then show ?case by simp
next
  case (Cons ev evs)
  have "error (step ev s) \<noteq> None" using Cons.prems by (rule step_error_kept)
  then have "error (run_events evs (step ev s)) \<noteq> None" by (rule Cons.IH)
  then show ?case by simp
qed

text \<open>
  Claim C1 as stated does not hold: \<open>_setError\<close> assigns the field on every delivery, so
  a second error replaces the first one.
\<close>

theorem later_error_replaces_first:
  "error (run_events [BackendError (Error ''first'')] ready) = Some (Error ''first'') \<and>
   error (run_events [BackendError (Error ''first''), BackendError (Error ''second'')] ready) =
     Some (Error ''second'') \<and>
   error (run_events [BackendError (Error ''first''), BackendError (Error ''second'')] ready) \<noteq>
     error (run_events [BackendError (Error ''first'')] ready)"
  by (simp add: ready_def setError_def)

text \<open>
  Claim C1, amended. The constructor leaves the field unset and subscribes \<open>_setError\<close>.
  From then on every error delivered by the error channel is stored in the field, in place
  of whatever was stored before (the last error wins), and no event clears a field that
  is set. \<open>loadCoinInfo\<close>, the one operation that runs with the field set, does not
  write it.
\<close>

theorem last_error_is_stored:
  "(constructor env opts world = (Inr b, world') \<longrightarrow>
      error b = None \<and> SetError \<in> set (handlers b)) \<and>
   (SetError \<in> set (handlers s) \<longrightarrow>
      error (run_events (evs @ [BackendError e]) s) = Some e) \<and>
   (error s \<noteq> None \<longrightarrow> error (run_events evs s) \<noteq> None) \<and>
   error (snd (loadCoinInfo env c0 s)) = error s"
proof (intro conjI impI)
  assume "constructor env opts world = (Inr b, world')"
  then show "error b = None" and "SetError \<in> set (handlers b)"
    by (auto simp add: constructor_def split: if_splits)
next
  assume "SetError \<in> set (handlers s)"
  then have "SetError \<in> set (handlers (run_events evs s))"
    by (simp add: run_events_handlers)
  then show "error (run_events (evs @ [BackendError e]) s) = Some e"
    by (simp add: run_events_append run_handlers_error)
next
  assume "error s \<noteq> None"
  then show "error (run_events evs s) \<noteq> None" by (rule run_events_error_kept)
next
  show "error (snd (loadCoinInfo env c0 s)) = error s"
    by (simp add: loadCoinInfo_def log_def Let_def split: sum.splits option.splits)
qed

theorem last_error_is_stored_witness:
  "constructor env0 \<lparr>urls = [''https://backend''], coinInfo = bitcoin\<rparr> [] =
     (Inr ready, [New_FastXpubWorker, New_BitcoreBlockchain [''https://backend''],
                  HttpRequest_FastXpubWasm, New_WorkerDiscovery]) \<and>
   error ready = None \<and> SetError \<in> set (handlers ready) \<and>
   error (run_events ([BackendError (Error ''first'')] @ [BackendError (Error ''second'')]) ready)
     = Some (Error ''second'') \<and>
   error failed \<noteq> None \<and>
   error (run_events [BackendError (Error ''first''), DiscoveryEnds 0 ''info''] failed) \<noteq> None"
  using constructor_ready
    last_error_is_stored [of env0 "\<lparr>urls = [''https://backend''], coinInfo = bitcoin\<rparr>" "[]"
      ready "[New_FastXpubWorker, New_BitcoreBlockchain [''https://backend''],
                  HttpRequest_FastXpubWasm, New_WorkerDiscovery]" ready
      "[BackendError (Error ''first'')]" "Error ''second''"]
    last_error_is_stored [of env0 "\<lparr>urls = [''https://backend''], coinInfo = bitcoin\<rparr>" "[]"
      ready "[New_FastXpubWorker, New_BitcoreBlockchain [''https://backend''],
                  HttpRequest_FastXpubWasm, New_WorkerDiscovery]" failed
      "[BackendError (Error ''first''), DiscoveryEnds 0 ''info'']" "Error ''second''"]
  by (simp add: failed_def ready_def)

subsection \<open>The guard of the gated operations\<close>

text \<open>
  Claim C2. When the field \<open>error\<close> is set, each of \<open>loadAccountInfo\<close>,
  \<open>monitorAccountActivity\<close>, \<open>loadTransaction\<close>, \<open>loadTransactions\<close>,
  \<open>loadCurrentHeight\<close>, \<open>sendTransaction\<close> and \<open>sendTransactionHex\<close> fails with the stored
  error and leaves the coordinator as it was: no call is added to \<open>calls\<close>, no handler is
  attached, no session or stream is created.
\<close>

theorem gated_operations_fail_fast:
  "error s = Some e \<Longrightarrow>
     loadAccountInfo xpub data c evs s = (Some (Inl e), s) \<and>
     monitorAccountActivity xpub info c s = (Inl e, s) \<and>
     loadTransaction env ident s = (Inl e, s) \<and>
     loadTransactions env order txs s = (Inl e, s) \<and>
     loadCurrentHeight env s = (Inl e, s) \<and>
     sendTransaction env txBytes s = (Inl e, s) \<and>
     sendTransactionHex env txHex s = (Inl e, s)"
  by (simp add: loadAccountInfo_def loadAccountInfo_start_def monitorAccountActivity_def
        loadTransaction_def loadTransactions_def loadCurrentHeight_def sendTransaction_def
        sendTransactionHex_def)

theorem gated_operations_fail_fast_witness:
  "error failed = Some (Error ''socket closed'') \<and>
   loadAccountInfo ''xpub'' None bitcoin [DiscoveryEnds 0 ''info''] failed =
     (Some (Inl (Error ''socket closed'')), failed) \<and>
   monitorAccountActivity ''xpub'' ''info'' bitcoin failed = (Inl (Error ''socket closed''), failed) \<and>
   loadTransaction env0 ''aa'' failed = (Inl (Error ''socket closed''), failed) \<and>
   loadTransactions env0 [] [''aa'', ''bb''] failed = (Inl (Error ''socket closed''), failed) \<and>
   loadCurrentHeight env0 failed = (Inl (Error ''socket closed''), failed) \<and>
   sendTransaction env0 [1, 255] failed = (Inl (Error ''socket closed''), failed) \<and>
   sendTransactionHex env0 ''01ff'' failed = (Inl (Error ''socket closed''), failed)"
proof -
  have h: "error failed = Some (Error ''socket closed'')"
    by (simp add: failed_def ready_def)
  show ?thesis
    using h gated_operations_fail_fast [OF h, of "''xpub''" None bitcoin "[DiscoveryEnds 0 ''info'']"
        "''info''" env0 "''aa''" "[]" "[''aa'', ''bb'']" "[1, 255]" "''01ff''"]
    by simp
qed

subsection \<open>Network identification\<close>

text \<open>
  Claim C4. \<open>loadCoinInfo\<close> does not read the field \<open>error\<close>: its result is the same
  with the field set or unset. Called without a descriptor, when the socket and
  \<open>getInfo\<close> answer, the hash of block 0 is \<open>h\<close> and \<open>getCoinInfoByHash\<close> finds nothing
  for it, it fails with the error \<open>Failed to load coinInfo h\<close>, after the three backend
  calls.
\<close>

theorem loadCoinInfo_not_gated:
  "fst (loadCoinInfo env c0 (s\<lparr>error := Some e\<rparr>)) = fst (loadCoinInfo env c0 (s\<lparr>error := None\<rparr>)) \<and>
   (socket_promise env = Inr () \<longrightarrow> getInfo env = Inr ni \<longrightarrow>
    lookupBlockHash env 0 = Inr h \<longrightarrow> getCoinInfoByHash env h ni = None \<longrightarrow>
      loadCoinInfo env None s =
        (Inl (Error (''Failed to load coinInfo '' @ h)),
         s\<lparr>calls := calls s @ [Socket_promise, Socket_send ''getInfo'', LookupBlockHash 0]\<rparr>))"
  by (simp add: loadCoinInfo_def log_def Let_def UnknownNetwork_def
        split: sum.splits option.splits)

theorem loadCoinInfo_not_gated_witness:
  "socket_promise env0 = Inr () \<and> getInfo env0 = Inr ''info'' \<and>
   lookupBlockHash env0 0 = Inr ''00aa'' \<and> getCoinInfoByHash env0 ''00aa'' ''info'' = None \<and>
   error failed = Some (Error ''socket closed'') \<and>
   loadCoinInfo env0 None failed =
     (Inl (Error ''Failed to load coinInfo 00aa''),
      failed\<lparr>calls := [Socket_promise, Socket_send ''getInfo'', LookupBlockHash 0]\<rparr>)"
  using loadCoinInfo_not_gated [where env = env0 and ?c0.0 = None and s = failed
      and ni = "''info''" and h = "''00aa''"]
  by (simp add: env0_def failed_def ready_def)

text \<open>
  Claim C5 as stated does not hold: after \<open>loadCoinInfo(null)\<close> has resolved the network
  to bitcoin, a second call with the descriptor of zcash succeeds and switches
  \<open>blockchain.zcash\<close>.
\<close>

theorem loadCoinInfo_switches_network:
  "fst (loadCoinInfo env1 None ready) = Inr () \<and>
   blockchain_zcash (snd (loadCoinInfo env1 None ready)) = Some (zcash bitcoin) \<and>
   zcash zcash_coin \<noteq> zcash bitcoin \<and>
   fst (loadCoinInfo env1 (Some zcash_coin) (snd (loadCoinInfo env1 None ready))) = Inr () \<and>
   blockchain_zcash
     (snd (loadCoinInfo env1 (Some zcash_coin) (snd (loadCoinInfo env1 None ready)))) =
     Some (zcash zcash_coin)"
  by (simp add: loadCoinInfo_def log_def Let_def env1_def env0_def ready_def bitcoin_def
        zcash_coin_def)

text \<open>
  Claim C5, amended. A successful \<open>loadCoinInfo\<close> stores the \<open>zcash\<close> flag of the
  descriptor, supplied or resolved, in \<open>blockchain.zcash\<close> and nothing else of it. The
  write is made on every successful call, whatever was stored before: a later call with
  another descriptor succeeds too and overwrites the flag.
\<close>

theorem loadCoinInfo_overwrites:
  "socket_promise env = Inr () \<Longrightarrow> getInfo env = Inr ni \<Longrightarrow>
   loadCoinInfo env (Some c) s =
     (Inr (), s\<lparr>calls := calls s @ [Socket_promise, Socket_send ''getInfo''],
                blockchain_zcash := Some (zcash c)\<rparr>) \<and>
   (lookupBlockHash env 0 = Inr h \<longrightarrow> getCoinInfoByHash env h ni = Some c \<longrightarrow>
    loadCoinInfo env None s =
     (Inr (), s\<lparr>calls := calls s @ [Socket_promise, Socket_send ''getInfo'', LookupBlockHash 0],
                blockchain_zcash := Some (zcash c)\<rparr>))"
  by (simp add: loadCoinInfo_def log_def Let_def)

theorem loadCoinInfo_overwrites_witness:
  "socket_promise env1 = Inr () \<and> getInfo env1 = Inr ''info'' \<and>
   lookupBlockHash env1 0 = Inr ''000019d6'' \<and>
   getCoinInfoByHash env1 ''000019d6'' ''info'' = Some bitcoin \<and>
   loadCoinInfo env1 (Some bitcoin) (ready\<lparr>blockchain_zcash := Some True\<rparr>) =
     (Inr (), ready\<lparr>calls := [Socket_promise, Socket_send ''getInfo''],
                    blockchain_zcash := Some False\<rparr>) \<and>
   loadCoinInfo env1 None (ready\<lparr>blockchain_zcash := Some True\<rparr>) =
     (Inr (), ready\<lparr>calls := [Socket_promise, Socket_send ''getInfo'', LookupBlockHash 0],
                    blockchain_zcash := Some False\<rparr>)"
proof -
  have a: "socket_promise env1 = Inr ()" and b: "getInfo env1 = Inr ''info''"
    by (simp_all add: env1_def env0_def)
  show ?thesis
    using a b loadCoinInfo_overwrites [OF a b, of bitcoin "ready\<lparr>blockchain_zcash := Some True\<rparr>"
        "''000019d6''"]
    by (simp add: env1_def env0_def ready_def bitcoin_def)
qed

subsection \<open>Events and the discovery session\<close>

lemma run_handler_settled:
  "ending (sessions s ! n) \<noteq> Pending \<Longrightarrow>
   ending (sessions (run_handler e h s) ! n) = ending (sessions s ! n)"
  by (cases h)
     (auto simp add: setError_def dispose_session_def dispose_monitor_def nth_list_update)

lemma run_handlers_settled:
  "ending (sessions s ! n) \<noteq> Pending \<Longrightarrow>
   ending (sessions (run_handlers e hs s) ! n) = ending (sessions s ! n)"
  by (induction hs arbitrary: s) (simp_all add: run_handler_settled)

lemma run_handlers_dispose:
  "DisposeDiscovery n \<in> set hs \<Longrightarrow> n < length (sessions s) \<Longrightarrow>
   ending (sessions s ! n) = Pending \<Longrightarrow>
   ending (sessions (run_handlers e hs s) ! n) = Rejected e"
proof (induction hs arbitrary: s)
  case Nil
  then show ?case by simp
next
  case (Cons h hs)
  show ?case
  proof (cases "ending (sessions (run_handler e h s) ! n) = Pending")
    case True
    then have "h \<noteq> DisposeDiscovery n"
      using Cons.prems by (auto simp add: dispose_session_def)
    then have "DisposeDiscovery n \<in> set hs" using Cons.prems by simp
    then show ?thesis
      using Cons.IH [of "run_handler e h s"] True Cons.prems
      by (simp add: run_handler_length)
  next
    case False
    have "ending (sessions (run_handler e h s) ! n) = Rejected e"
      using False Cons.prems
      by (cases h)
         (auto simp add: setError_def dispose_session_def dispose_monitor_def
            nth_list_update split: if_splits)
    then show ?thesis
      using run_handlers_settled [of "run_handler e h s" n e hs] by simp
  qed
qed

lemma step_settled:
  "ending (sessions s ! n) \<noteq> Pending \<Longrightarrow>
   ending (sessions (step ev s) ! n) = ending (sessions s ! n)"
  by (cases ev)
     (auto simp add: run_handlers_settled settle_session_def relay_progress_def
        dispose_session_def nth_list_update)

lemma run_events_settled:
  "ending (sessions s ! n) \<noteq> Pending \<Longrightarrow>
   ending (sessions (run_events evs s) ! n) = ending (sessions s ! n)"
  by (induction evs arbitrary: s) (simp_all add: step_settled)

lemma await_ending_settled:
  "ending (sessions s ! n) = Rejected e \<Longrightarrow> await_ending n evs s = (Some (Inl e), s)"
  "ending (sessions s ! n) = Resolved info \<Longrightarrow> await_ending n evs s = (Some (Inr info), s)"
  by (cases evs; simp)+

lemma await_ending_append:
  "ending (sessions (run_events pre s) ! n) = Pending \<Longrightarrow>
   await_ending n (pre @ rest) s = await_ending n rest (run_events pre s)"
proof (induction pre arbitrary: s)
  case Nil
  then show ?case by simp
next
  case (Cons ev pre)
  have pend: "ending (sessions (step ev s) ! n) = Pending \<Longrightarrow> ending (sessions s ! n) = Pending"
    using step_settled [of s n ev] by metis
  have "ending (sessions (step ev s) ! n) = Pending"
  proof (rule ccontr)
    assume a: "ending (sessions (step ev s) ! n) \<noteq> Pending"
    have "\<And>t. ending (sessions t ! n) \<noteq> Pending \<Longrightarrow>
           ending (sessions (run_events pre t) ! n) = ending (sessions t ! n)"
    proof -
      fix t show "ending (sessions t ! n) \<noteq> Pending \<Longrightarrow>
           ending (sessions (run_events pre t) ! n) = ending (sessions t ! n)"
        by (induction pre arbitrary: t) (simp_all add: step_settled)
    qed
    from this [OF a] a Cons.prems show False by simp
  qed
  then show ?case using Cons pend by simp
qed

lemma await_ending_success:
  "DisposeDiscovery n \<in> set (handlers s) \<Longrightarrow> n < length (sessions s) \<Longrightarrow>
   fst (await_ending n evs s) = Some (Inr info) \<Longrightarrow>
   ending (sessions s ! n) = Pending \<Longrightarrow>
   \<exists>pre post. evs = pre @ DiscoveryEnds n info # post \<and> (\<forall>e. BackendError e \<notin> set pre)"
proof (induction evs arbitrary: s)
  case Nil
  then show ?case by simp
next
  case (Cons ev evs)
  have run: "fst (await_ending n evs (step ev s)) = Some (Inr info)"
    using Cons.prems by simp
  show ?case
  proof (cases "ending (sessions (step ev s) ! n) = Pending")
    case True
    have noerr: "\<And>e. ev \<noteq> BackendError e"
    proof
      fix e assume "ev = BackendError e"
      then have "ending (sessions (step ev s) ! n) = Rejected e"
        using Cons.prems run_handlers_dispose [of n "handlers s" s e] by simp
      with True show False by simp
    qed
    obtain pre post where
      "evs = pre @ DiscoveryEnds n info # post" "\<forall>e. BackendError e \<notin> set pre"
      using Cons.IH [of "step ev s"] Cons.prems run True
      by (auto simp add: step_handlers step_length)
    then have "ev # evs = (ev # pre) @ DiscoveryEnds n info # post \<and>
               (\<forall>e. BackendError e \<notin> set (ev # pre))"
      using noerr by auto
    then show ?thesis by blast
  next
    case False
    then have res: "ending (sessions (step ev s) ! n) = Resolved info"
      using run by (cases "ending (sessions (step ev s) ! n)") (simp_all add: await_ending_settled)
    have "ev = DiscoveryEnds n info"
    proof (cases ev)
      case (BackendError e)
      then have "ending (sessions (step ev s) ! n) = Rejected e"
        using Cons.prems run_handlers_dispose [of n "handlers s" s e] by simp
      with res show ?thesis by simp
    next
      case (DiscoveryEnds m i)
      then show ?thesis using res Cons.prems
        by (auto simp add: settle_session_def nth_list_update split: if_splits)
    next
      case (DiscoveryFails m e)
      then show ?thesis using res Cons.prems
        by (auto simp add: settle_session_def nth_list_update split: if_splits)
    next
      case (DiscoveryProgress m st)
      then show ?thesis using res Cons.prems
        by (auto simp add: relay_progress_def split: if_splits)
    next
      case (DisposerCalled m)
      then show ?thesis using res Cons.prems
        by (auto simp add: dispose_session_def nth_list_update split: if_splits)
    qed
    then have "ev # evs = [] @ DiscoveryEnds n info # evs \<and> (\<forall>e. BackendError e \<notin> set [])"
      by simp
    then show ?thesis by blast
  qed
qed

lemma await_ending_handlers: "handlers (snd (await_ending n evs s)) = handlers s"
  by (induction evs arbitrary: s) (simp_all add: step_handlers split: promise.splits)

lemma dispose_stream_handlers: "handlers (dispose_stream n s) = handlers s"
  by (simp add: dispose_stream_def)

lemma loadAccountInfo_result:
  "error s = None \<Longrightarrow>
   fst (loadAccountInfo xpub data c evs s) =
     fst (await_ending (length (sessions s)) evs (snd (loadAccountInfo_start xpub data c s)))"
  by (auto simp add: loadAccountInfo_def loadAccountInfo_start_def Let_def
        split: prod.splits option.splits sum.splits)

lemma loadAccountInfo_state:
  "error s = None \<Longrightarrow>
   snd (loadAccountInfo xpub data c evs s) =
     (case await_ending (length (sessions s)) evs (snd (loadAccountInfo_start xpub data c s)) of
        (Some (Inr info), s2) \<Rightarrow> dispose_stream (length (sessions s)) s2
      | (r, s2) \<Rightarrow> s2)"
  by (auto simp add: loadAccountInfo_def loadAccountInfo_start_def Let_def
        split: prod.splits option.splits sum.splits)

text \<open>
  Claim C9. Let \<open>loadAccountInfo\<close> start a session. If the session is still pending
  after the events \<open>pre\<close> and the error channel then delivers \<open>e\<close>, the call fails with
  \<open>e\<close>, whatever happens afterwards. And a call that succeeds with \<open>info\<close> has seen the
  engine complete the session with \<open>info\<close> before any error was delivered.
\<close>

theorem backend_error_cancels_open_session:
  "(error s = None \<longrightarrow>
      ending (sessions (run_events pre (snd (loadAccountInfo_start xpub data c s)))
                ! length (sessions s)) = Pending \<longrightarrow>
      fst (loadAccountInfo xpub data c (pre @ BackendError e # post) s) = Some (Inl e)) \<and>
   (error s = None \<longrightarrow>
      fst (loadAccountInfo xpub data c evs s) = Some (Inr info) \<longrightarrow>
      (\<exists>before after. evs = before @ DiscoveryEnds (length (sessions s)) info # after \<and>
         (\<forall>e'. BackendError e' \<notin> set before)))"
proof (intro conjI impI)
  let ?n = "length (sessions s)"
  let ?s1 = "snd (loadAccountInfo_start xpub data c s)"
  assume ok: "error s = None"
  have start: "loadAccountInfo_start xpub data c s = (Inr ?n, ?s1)"
    using ok by (simp add: loadAccountInfo_start_def Let_def)
  have att: "DisposeDiscovery ?n \<in> set (handlers ?s1)" and len: "?n < length (sessions ?s1)"
    and pend: "ending (sessions ?s1 ! ?n) = Pending"
    using ok by (simp_all add: loadAccountInfo_start_def Let_def)
  {
    assume "open": "ending (sessions (run_events pre ?s1) ! ?n) = Pending"
    let ?s2 = "run_events pre ?s1"
    have "ending (sessions (step (BackendError e) ?s2) ! ?n) = Rejected e"
      using run_handlers_dispose [of ?n "handlers ?s2" ?s2 e] att len "open"
      by (simp add: run_events_handlers run_events_length)
    then have "await_ending ?n (BackendError e # post) ?s2 =
                 (Some (Inl e), step (BackendError e) ?s2)"
      using "open" by (simp add: await_ending_settled)
    then have "await_ending ?n (pre @ BackendError e # post) ?s1 =
                 (Some (Inl e), step (BackendError e) ?s2)"
      using await_ending_append [OF "open"] by simp
    then have "fst (await_ending ?n (pre @ BackendError e # post) ?s1) = Some (Inl e)"
      by simp
    then show "fst (loadAccountInfo xpub data c (pre @ BackendError e # post) s) = Some (Inl e)"
      using ok by (simp add: loadAccountInfo_result)
  }
  {
    assume succ: "fst (loadAccountInfo xpub data c evs s) = Some (Inr info)"
    have "fst (await_ending ?n evs ?s1) = Some (Inr info)"
      using succ ok by (simp add: loadAccountInfo_result)
    then show "\<exists>before after. evs = before @ DiscoveryEnds ?n info # after \<and>
         (\<forall>e'. BackendError e' \<notin> set before)"
      using await_ending_success [OF att len _ pend] by blast
  }
qed

theorem backend_error_cancels_open_session_witness:
  "error ready = None \<and>
   ending (sessions (run_events [DiscoveryProgress 0 ''10%'']
                       (snd (loadAccountInfo_start ''xpub'' None bitcoin ready)))
             ! length (sessions ready)) = Pending \<and>
   fst (loadAccountInfo ''xpub'' None bitcoin
          ([DiscoveryProgress 0 ''10%''] @ BackendError (Error ''socket closed'') #
             [DiscoveryEnds 0 ''info'']) ready) = Some (Inl (Error ''socket closed'')) \<and>
   fst (loadAccountInfo ''xpub'' None bitcoin
          [DiscoveryEnds 0 ''info'', BackendError (Error ''socket closed'')] ready) =
     Some (Inr ''info'') \<and>
   (\<exists>before after.
      [DiscoveryEnds 0 ''info'', BackendError (Error ''socket closed'')] =
        before @ DiscoveryEnds (length (sessions ready)) ''info'' # after \<and>
      (\<forall>e'. BackendError e' \<notin> set before))"
proof -
  have h1: "error ready = None" by (simp add: ready_def)
  have h2: "ending (sessions (run_events [DiscoveryProgress 0 ''10%'']
                       (snd (loadAccountInfo_start ''xpub'' None bitcoin ready)))
             ! length (sessions ready)) = Pending"
    by (simp add: loadAccountInfo_start_def Let_def ready_def relay_progress_def)
  have h3: "fst (loadAccountInfo ''xpub'' None bitcoin
          [DiscoveryEnds 0 ''info'', BackendError (Error ''socket closed'')] ready) =
     Some (Inr ''info'')"
    by (simp add: loadAccountInfo_def loadAccountInfo_start_def Let_def ready_def
          settle_session_def)
  show ?thesis
    using h1 h2 h3
      backend_error_cancels_open_session [where s = ready and pre = "[DiscoveryProgress 0 ''10%'']"
        and xpub = "''xpub''" and data = None and c = bitcoin
        and e = "Error ''socket closed''" and post = "[DiscoveryEnds 0 ''info'']"
        and evs = "[DiscoveryEnds 0 ''info'', BackendError (Error ''socket closed'')]"
        and info = "''info''"]
    by simp
qed

text \<open>
  Claim C6 as stated does not hold: the session below ends with success and the handler
  subscribed for it is still attached to the error channel.
\<close>

theorem error_subscription_leaks:
  "fst (loadAccountInfo ''xpub'' None bitcoin [DiscoveryEnds 0 ''info''] ready) =
     Some (Inr ''info'') \<and>
   handlers (snd (loadAccountInfo ''xpub'' None bitcoin [DiscoveryEnds 0 ''info''] ready)) =
     [SetError, DisposeDiscovery 0] \<and>
   handlers ready = [SetError]"
  by (simp add: loadAccountInfo_def loadAccountInfo_start_def Let_def ready_def
        settle_session_def dispose_stream_def)

text \<open>
  Claim C6, amended. The subscription that \<open>loadAccountInfo\<close> creates for its session is
  not removed when the session ends: after the call, and after any later events, the
  handler is still attached, behind those attached before. The handler disposes the
  session it was created for and no other session.
\<close>

theorem error_subscription_stays:
  "error s = None \<Longrightarrow>
   handlers (run_events later (snd (loadAccountInfo xpub data c evs s))) =
     handlers s @ [DisposeDiscovery (length (sessions s))] \<and>
   (m \<noteq> length (sessions s) \<longrightarrow>
      sessions (run_handler e (DisposeDiscovery (length (sessions s))) t) ! m = sessions t ! m)"
proof -
  assume ok: "error s = None"
  have "handlers (snd (loadAccountInfo xpub data c evs s)) =
          handlers (snd (loadAccountInfo_start xpub data c s))"
    using ok
    by (simp add: loadAccountInfo_state await_ending_handlers dispose_stream_handlers
          case_prod_beta split: option.splits sum.splits)
  then have "handlers (run_events later (snd (loadAccountInfo xpub data c evs s))) =
     handlers s @ [DisposeDiscovery (length (sessions s))]"
    using ok by (simp add: run_events_handlers loadAccountInfo_start_def Let_def)
  moreover have "m \<noteq> length (sessions s) \<longrightarrow>
      sessions (run_handler e (DisposeDiscovery (length (sessions s))) t) ! m = sessions t ! m"
    by (simp add: dispose_session_def)
  ultimately show ?thesis by simp
qed

theorem error_subscription_stays_witness:
  "error ready = None \<and>
   handlers (run_events [BackendError (Error ''late'')]
      (snd (loadAccountInfo ''xpub'' None bitcoin [DisposerCalled 0] ready))) =
     [SetError, DisposeDiscovery 0] \<and>
   fst (loadAccountInfo ''xpub'' None bitcoin [DisposerCalled 0] ready) =
     Some (Inl (Error ''Interrupted by user''))"
proof -
  have h: "error ready = None" by (simp add: ready_def)
  have a: "handlers (run_events [BackendError (Error ''late'')]
      (snd (loadAccountInfo ''xpub'' None bitcoin [DisposerCalled 0] ready))) =
     [SetError, DisposeDiscovery 0]"
    using error_subscription_stays [OF h, of "[BackendError (Error ''late'')]" "''xpub''" None
        bitcoin "[DisposerCalled 0]" 1 "Error ''late''" ready]
    by (simp add: ready_def)
  have b: "fst (loadAccountInfo ''xpub'' None bitcoin [DisposerCalled 0] ready) =
     Some (Inl (Error ''Interrupted by user''))"
    by (simp add: loadAccountInfo_def loadAccountInfo_start_def Let_def ready_def
          dispose_session_def)
  from h a b show ?thesis by simp
qed

subsection \<open>The parameters of the discovery engine\<close>

lemma run_handler_calls: "calls (run_handler e h s) = calls s"
  by (cases h) (simp_all add: setError_def dispose_session_def dispose_monitor_def)

lemma run_handlers_calls: "calls (run_handlers e hs s) = calls s"
  by (induction hs arbitrary: s) (simp_all add: run_handler_calls)

lemma step_calls:
  "\<exists>ext. calls (step ev s) = calls s @ ext \<and> filter engine_start ext = []"
  by (cases ev)
     (simp_all add: run_handlers_calls settle_session_def relay_progress_def
        dispose_session_def)

lemma await_ending_calls:
  "\<exists>ext. calls (snd (await_ending n evs s)) = calls s @ ext \<and> filter engine_start ext = []"
proof (induction evs arbitrary: s)
  case Nil
  then show ?case by (simp split: promise.splits)
next
  case (Cons ev evs)
  obtain a where a: "calls (step ev s) = calls s @ a" "filter engine_start a = []"
    using step_calls by blast
  obtain b where b: "calls (snd (await_ending n evs (step ev s))) = calls (step ev s) @ b"
    "filter engine_start b = []"
    using Cons.IH by blast
  have "calls (snd (await_ending n evs (step ev s))) = calls s @ (a @ b) \<and>
        filter engine_start (a @ b) = []"
    using a b by simp
  then have "\<exists>ext. calls (snd (await_ending n evs (step ev s))) = calls s @ ext \<and>
        filter engine_start ext = []" by blast
  then show ?case by (simp split: promise.splits)
qed

lemma dispose_stream_calls:
  "\<exists>ext. calls (dispose_stream n s) = calls s @ ext \<and> filter engine_start ext = []"
  by (simp add: dispose_stream_def)

lemma loadAccountInfo_calls:
  assumes "error s = None"
  shows "\<exists>ext. calls (snd (loadAccountInfo xpub data c evs s)) =
           calls s @ [DiscoverAccount data xpub (network c) (segwit_s c)
                        (truthy (cashAddrPrefix c)), SetDisposer (length (sessions s))] @ ext \<and>
           filter engine_start ext = []"
proof -
  let ?n = "length (sessions s)"
  let ?s1 = "snd (loadAccountInfo_start xpub data c s)"
  let ?new = "[DiscoverAccount data xpub (network c) (segwit_s c)
                        (truthy (cashAddrPrefix c)), SetDisposer (length (sessions s))]"
  have c1: "calls ?s1 = calls s @ ?new"
    using assms by (simp add: loadAccountInfo_start_def Let_def)
  obtain a where a: "calls (snd (await_ending ?n evs ?s1)) = calls ?s1 @ a"
    "filter engine_start a = []"
    using await_ending_calls by blast
  obtain b where b: "calls (dispose_stream ?n (snd (await_ending ?n evs ?s1))) =
      calls (snd (await_ending ?n evs ?s1)) @ b" "filter engine_start b = []"
    using dispose_stream_calls by blast
  have "calls (snd (loadAccountInfo xpub data c evs s)) = calls s @ ?new @ a \<or>
        calls (snd (loadAccountInfo xpub data c evs s)) = calls s @ ?new @ (a @ b)"
    using a b c1 assms
    by (auto simp add: loadAccountInfo_state split: prod.splits option.splits sum.splits)
  then show ?thesis using a b by (metis filter_append append_Nil)
qed

text \<open>
  Claim C7. When the guard lets them pass, \<open>loadAccountInfo\<close> and
  \<open>monitorAccountActivity\<close> each start the discovery engine once, with the segwit mode
  \<open>p2sh\<close> when the descriptor has \<open>segwit\<close> and \<open>off\<close> otherwise, and with the prefix
  flag that tells whether the descriptor has a (non-empty) \<open>cashAddrPrefix\<close>.
\<close>

theorem discovery_parameters:
  "error s = None \<Longrightarrow>
     filter engine_start
       (drop (length (calls s)) (calls (snd (loadAccountInfo xpub data c evs s)))) =
       [DiscoverAccount data xpub (network c) (if segwit c then p2sh else off)
          (cashAddrPrefix c \<noteq> None \<and> cashAddrPrefix c \<noteq> Some [])] \<and>
     filter engine_start
       (drop (length (calls s)) (calls (snd (monitorAccountActivity xpub info c s)))) =
       [MonitorAccountActivity info xpub (network c) (if segwit c then p2sh else off)
          (cashAddrPrefix c \<noteq> None \<and> cashAddrPrefix c \<noteq> Some [])]"
proof -
  assume ok: "error s = None"
  have t: "truthy (cashAddrPrefix c) = (cashAddrPrefix c \<noteq> None \<and> cashAddrPrefix c \<noteq> Some [])"
    by (simp add: truthy_def split: option.splits)
  obtain ext where ext: "calls (snd (loadAccountInfo xpub data c evs s)) =
           calls s @ [DiscoverAccount data xpub (network c) (segwit_s c)
                        (truthy (cashAddrPrefix c)), SetDisposer (length (sessions s))] @ ext"
           "filter engine_start ext = []"
    using loadAccountInfo_calls [OF ok] by blast
  have a: "filter engine_start
       (drop (length (calls s)) (calls (snd (loadAccountInfo xpub data c evs s)))) =
       [DiscoverAccount data xpub (network c) (if segwit c then p2sh else off)
          (cashAddrPrefix c \<noteq> None \<and> cashAddrPrefix c \<noteq> Some [])]"
    using ext t by (simp add: segwit_s_def)
  have b: "filter engine_start
       (drop (length (calls s)) (calls (snd (monitorAccountActivity xpub info c s)))) =
       [MonitorAccountActivity info xpub (network c) (if segwit c then p2sh else off)
          (cashAddrPrefix c \<noteq> None \<and> cashAddrPrefix c \<noteq> Some [])]"
    using ok t by (simp add: monitorAccountActivity_def Let_def segwit_s_def)
  from a b show ?thesis by simp
qed

theorem discovery_parameters_witness:
  "error ready = None \<and>
   filter engine_start
     (drop (length (calls ready))
        (calls (snd (loadAccountInfo ''xpub'' None bcash [DiscoveryEnds 0 ''info''] ready)))) =
     [DiscoverAccount None ''xpub'' ''bcash'' off True] \<and>
   filter engine_start
     (drop (length (calls ready))
        (calls (snd (monitorAccountActivity ''xpub'' ''info'' bitcoin ready)))) =
     [MonitorAccountActivity ''info'' ''xpub'' ''bitcoin'' p2sh False]"
proof -
  have h: "error ready = None" by (simp add: ready_def)
  have a: "filter engine_start
     (drop (length (calls ready))
        (calls (snd (loadAccountInfo ''xpub'' None bcash [DiscoveryEnds 0 ''info''] ready)))) =
     [DiscoverAccount None ''xpub'' ''bcash'' off True]"
    using discovery_parameters [OF h, of "''xpub''" None bcash "[DiscoveryEnds 0 ''info'']"]
    by (simp add: bcash_def)
  have b: "filter engine_start
     (drop (length (calls ready))
        (calls (snd (monitorAccountActivity ''xpub'' ''info'' bitcoin ready)))) =
     [MonitorAccountActivity ''info'' ''xpub'' ''bitcoin'' p2sh False]"
    using discovery_parameters [OF h, of "''xpub''" _ bitcoin _ "''info''"]
    by (simp add: bitcoin_def)
  from h a b show ?thesis by simp
qed

subsection \<open>Transactions\<close>

text \<open>
  Claim C10. With the field \<open>error\<close> unset, \<open>loadTransactions\<close> of the empty list returns the
  empty list and makes no call, whatever the settling order given.
\<close>

theorem loadTransactions_empty:
  "error s = None \<Longrightarrow> loadTransactions env order [] s = (Inr [], s)"
  by (induction order) (simp_all add: loadTransactions_def Promise_all_def)

theorem loadTransactions_empty_witness:
  "error ready = None \<and> loadTransactions env0 [0, 1] [] ready = (Inr [], ready) \<and>
   calls ready = []"
proof -
  have h: "error ready = None" by (simp add: ready_def)
  show ?thesis using h loadTransactions_empty [OF h, of env0 "[0, 1]"] by (simp add: ready_def)
qed

lemma loadTransaction_error: "error (snd (loadTransaction env ident s)) = error s"
  by (simp add: loadTransaction_def log_def Let_def split: option.splits sum.splits)

lemma loadTransaction_result:
  "error t = error s \<Longrightarrow> fst (loadTransaction env ident t) = fst (loadTransaction env ident s)"
  by (simp add: loadTransaction_def Let_def split: option.splits sum.splits)

lemma map_loadTransaction_results:
  "fst (map_loadTransaction env txs s) = map (\<lambda>ident. fst (loadTransaction env ident s)) txs"
proof (induction txs arbitrary: s)
  case Nil
  then show ?case by simp
next
  case (Cons ident txs)
  have "map (\<lambda>i. fst (loadTransaction env i (snd (loadTransaction env ident s)))) txs =
        map (\<lambda>i. fst (loadTransaction env i s)) txs"
    using loadTransaction_result [OF loadTransaction_error] by simp
  then show ?case using Cons.IH [of "snd (loadTransaction env ident s)"]
    by (simp add: case_prod_beta)
qed

lemma map_loadTransaction_calls:
  "error s = None \<Longrightarrow>
   calls (snd (map_loadTransaction env txs s)) = calls s @ map LookupTransaction txs"
proof (induction txs arbitrary: s)
  case Nil
  then show ?case by simp
next
  case (Cons ident txs)
  have e: "error (snd (loadTransaction env ident s)) = None"
    using Cons.prems by (simp add: loadTransaction_error)
  have c: "calls (snd (loadTransaction env ident s)) = calls s @ [LookupTransaction ident]"
    using Cons.prems
    by (simp add: loadTransaction_def log_def Let_def split: sum.splits)
  show ?case using Cons.IH [OF e] c by (simp add: case_prod_beta)
qed

lemma first_rejection_Some:
  "first_rejection order rs = Some e \<Longrightarrow> \<exists>i<length rs. rs ! i = Inl e"
  by (induction order) (auto split: if_splits sum.splits)

lemma first_rejection_None:
  "first_rejection order rs = None \<Longrightarrow> i \<in> set order \<Longrightarrow> i < length rs \<Longrightarrow>
   \<exists>v. rs ! i = Inr v"
  by (induction order) (auto split: if_splits sum.splits)

lemma fulfilled_all:
  "\<forall>i<length rs. \<exists>v. rs ! i = Inr v \<Longrightarrow> rs = map Inr (fulfilled rs)"
proof (induction rs)
  case Nil
  then show ?case by simp
next
  case (Cons r rs)
  obtain v where v: "r = Inr v" using Cons.prems by fastforce
  have "\<forall>i<length rs. \<exists>v. rs ! i = Inr v" using Cons.prems by fastforce
  then show ?case using Cons.IH v by simp
qed

lemma Promise_all_Inr:
  assumes "Promise_all order rs = Inr out"
  shows "rs = map Inr out"
proof -
  have none: "first_rejection (order @ [0..<length rs]) rs = None" and out: "out = fulfilled rs"
    using assms by (auto simp add: Promise_all_def split: option.splits)
  have "\<forall>i<length rs. \<exists>v. rs ! i = Inr v"
    using first_rejection_None [OF none] by simp
  then show ?thesis using fulfilled_all out by blast
qed

lemma Promise_all_Inl:
  "Promise_all order rs = Inl e \<Longrightarrow> \<exists>i<length rs. rs ! i = Inl e"
  using first_rejection_Some by (auto simp add: Promise_all_def split: option.splits)

lemma loadTransactions_result:
  "error s = None \<Longrightarrow>
   fst (loadTransactions env order txs s) =
     Promise_all order (map (\<lambda>ident. fst (loadTransaction env ident s)) txs)"
  using map_loadTransaction_results [of env txs s]
  by (simp add: loadTransactions_def case_prod_beta)

text \<open>
  Claim C8. \<open>loadTransactions\<close> looks every id up by a call of its own, in list order.
  A result it returns has one transaction for each id, the one \<open>loadTransaction\<close> gives
  for that id; and when the fetch of some id fails, the whole call fails, with the error
  of one of the failed fetches, in every settling order.
\<close>

theorem loadTransactions_all_or_nothing:
  "(fst (loadTransactions env order txs s) = Inr out \<longrightarrow>
      length out = length txs \<and>
      (\<forall>i<length txs. fst (loadTransaction env (txs ! i) s) = Inr (out ! i))) \<and>
   (i < length txs \<longrightarrow> fst (loadTransaction env (txs ! i) s) = Inl e \<longrightarrow>
      (\<exists>e' j. fst (loadTransactions env order txs s) = Inl e' \<and> j < length txs \<and>
         fst (loadTransaction env (txs ! j) s) = Inl e')) \<and>
   (error s = None \<longrightarrow>
      calls (snd (loadTransactions env order txs s)) = calls s @ map LookupTransaction txs)"
proof (intro conjI impI)
  assume r: "fst (loadTransactions env order txs s) = Inr out"
  then have ok: "error s = None"
    by (cases "error s") (simp_all add: loadTransactions_def)
  have m: "map (\<lambda>ident. fst (loadTransaction env ident s)) txs = map Inr out"
    using r ok Promise_all_Inr by (simp add: loadTransactions_result)
  then show len: "length out = length txs" using map_eq_imp_length_eq by fastforce
  show "\<forall>i<length txs. fst (loadTransaction env (txs ! i) s) = Inr (out ! i)"
  proof (intro allI impI)
    fix k assume k: "k < length txs"
    have "map (\<lambda>ident. fst (loadTransaction env ident s)) txs ! k = map Inr out ! k"
      using m by simp
    then show "fst (loadTransaction env (txs ! k) s) = Inr (out ! k)"
      using k len by simp
  qed
next
  assume i: "i < length txs" and f: "fst (loadTransaction env (txs ! i) s) = Inl e"
  show "\<exists>e' j. fst (loadTransactions env order txs s) = Inl e' \<and> j < length txs \<and>
         fst (loadTransaction env (txs ! j) s) = Inl e'"
  proof (cases "error s")
    case (Some x)
    then have "fst (loadTransactions env order txs s) = Inl x"
      and "fst (loadTransaction env (txs ! i) s) = Inl x"
      by (simp_all add: loadTransactions_def loadTransaction_def)
    then show ?thesis using i by blast
  next
    case None
    let ?rs = "map (\<lambda>ident. fst (loadTransaction env ident s)) txs"
    have res: "fst (loadTransactions env order txs s) = Promise_all order ?rs"
      using None by (simp add: loadTransactions_result)
    show ?thesis
    proof (cases "Promise_all order ?rs")
      case (Inl e')
      then obtain j where "j < length ?rs" "?rs ! j = Inl e'"
        using Promise_all_Inl by blast
      then have "j < length txs" "fst (loadTransaction env (txs ! j) s) = Inl e'" by simp_all
      then show ?thesis using res Inl by auto
    next
      case (Inr out')
      then have "?rs = map Inr out'" using Promise_all_Inr by blast
      then have "?rs ! i = map Inr out' ! i" by simp
      moreover have "length out' = length txs"
        using \<open>?rs = map Inr out'\<close> map_eq_imp_length_eq by fastforce
      ultimately have "fst (loadTransaction env (txs ! i) s) = Inr (out' ! i)"
        using i by simp
      then show ?thesis using f by simp
    qed
  qed
next
  assume ok: "error s = None"
  show "calls (snd (loadTransactions env order txs s)) = calls s @ map LookupTransaction txs"
    using ok map_loadTransaction_calls [OF ok, of env txs]
    by (simp add: loadTransactions_def case_prod_beta)
qed

theorem loadTransactions_all_or_nothing_witness:
  "1 < length [''aa'', ''bad'', ''cc''] \<and>
   fst (loadTransaction env0 ([''aa'', ''bad'', ''cc''] ! 1) ready) = Inl (Error ''not found'') \<and>
   fst (loadTransactions env0 [2, 0, 1] [''aa'', ''bad'', ''cc''] ready) =
     Inl (Error ''not found'') \<and>
   error ready = None \<and>
   calls (snd (loadTransactions env0 [2, 0, 1] [''aa'', ''bad'', ''cc''] ready)) =
     [LookupTransaction ''aa'', LookupTransaction ''bad'', LookupTransaction ''cc''] \<and>
   fst (loadTransactions env0 [1, 0] [''aa'', ''cc''] ready) = Inr [''aa'', ''cc''] \<and>
   fst (loadTransaction env0 ([''aa'', ''cc''] ! 1) ready) = Inr ([''aa'', ''cc''] ! 1)"
  using loadTransactions_all_or_nothing [of env0 "[2, 0, 1]" "[''aa'', ''bad'', ''cc'']" ready
      "[''aa'', ''cc'']" 1 "Error ''not found''"]
    loadTransactions_all_or_nothing [of env0 "[1, 0]" "[''aa'', ''cc'']" ready
      "[''aa'', ''cc'']" 0 "Error ''not found''"]
  by (simp add: loadTransactions_def loadTransaction_def Promise_all_def env0_def ready_def
        log_def upt_rec)

end
